theory Spec2Isabelle
  imports Main
begin

section \<open>The sunrise-sunset sensor of \<^verbatim>\<open>src/main.ts\<close>\<close>

text \<open>
  The class \<^verbatim>\<open>SunriseSunsetSensor\<close> computes the solar times of three days, arms up to
  two single-shot timers and flips \<^verbatim>\<open>binaryState\<close> when they fire. The model keeps the
  sensor's fields together with the two host facilities the methods act on: the queue of
  pending timers (\<^verbatim>\<open>setTimeout\<close>, \<^verbatim>\<open>clearTimeout\<close>) and the registry of position listeners
  (\<^verbatim>\<open>listen\<close>, \<^verbatim>\<open>removeListener\<close>). Instants are milliseconds as \<^verbatim>\<open>getTime()\<close> and
  \<^verbatim>\<open>Date.now()\<close> give them. The \<^verbatim>\<open>console.log\<close> lines have no effect on the state and are
  left out.
\<close>

subsection \<open>Data\<close>

text \<open>
  A \<^verbatim>\<open>Date\<close> as the solar calculator returns it. \<open>None\<close> is the Invalid Date, whose
  \<^verbatim>\<open>getTime()\<close> is NaN: every comparison with it is false.
\<close>

type_synonym date = "int option"

text \<open>The four fields of \<^verbatim>\<open>SunCalc.GetTimesResult\<close> that the sensor reads.\<close>

record GetTimesResult =
  sunrise :: date
  sunriseEnd :: date
  sunsetStart :: date
  sunset :: date

text \<open>The two closures handed to \<^verbatim>\<open>setTimeout\<close>: \<^verbatim>\<open>() => this.trigger()\<close> and
  \<^verbatim>\<open>() => this.untrigger()\<close>.\<close>

datatype callback = Trigger | Untrigger

text \<open>
  A pending timer: the instant \<^verbatim>\<open>setTimeout\<close> was called, the delay it was given and the
  closure to run. The timer is due \<open>delay\<close> milliseconds after it was armed; what the
  runtime does with a delay outside its own range is not part of the source and is not
  modelled.
\<close>

record Timeout =
  armedAt :: int
  delay :: int
  handler :: callback

definition due :: "Timeout \<Rightarrow> int" where
  "due t = armedAt t + delay t"

text \<open>
  The sensor: the clock read by \<^verbatim>\<open>Date.now()\<close> and \<^verbatim>\<open>new Date()\<close>, the pending timers by
  handle in the order they were armed, the listeners registered on the position sensor,
  and the fields \<^verbatim>\<open>positionListener\<close>, \<^verbatim>\<open>startTimeout\<close>, \<^verbatim>\<open>endTimeout\<close> (\<open>None\<close> is
  \<^verbatim>\<open>undefined\<close>) and \<^verbatim>\<open>binaryState\<close>. The clock stands still while a method runs: all
  the readings of one run of \<^verbatim>\<open>setupSensor\<close> give the same instant.
\<close>

record sensor =
  clock :: int
  pending :: "(nat \<times> Timeout) list"
  nextTimeout :: nat
  listeners :: "nat list"
  nextListener :: nat
  positionListener :: "nat option"
  startTimeout :: "nat option"
  endTimeout :: "nat option"
  binaryState :: "bool option"

text \<open>
  \<^verbatim>\<open>storageSettings.values\<close> as one run of \<^verbatim>\<open>setupSensor\<close> reads it: the linked device
  (\<open>None\<close> when none is set) with its \<^verbatim>\<open>position\<close> (\<open>None\<close> when the device reports
  none), and the stored mode string. The type of a coordinate is left open: the sensor
  only hands latitude and longitude to the solar calculator.
\<close>

record 'c position =
  latitude :: 'c
  longitude :: 'c

record 'c positionSensor =
  position :: "'c position option"

record 'c settings =
  linkedPositionSensor :: "'c positionSensor option"
  mode :: "string option"

text \<open>
  What the sensor takes from outside: the local-calendar arithmetic of \<^verbatim>\<open>Date\<close>
  (\<^verbatim>\<open>setHours(0, 0, 0, 0)\<close> and \<^verbatim>\<open>setDate(getDate() + 1)\<close>, which depend on the time zone)
  and \<^verbatim>\<open>SunCalc.getTimes\<close>.
\<close>

record 'c host =
  setHours0 :: "int \<Rightarrow> int"
  nextDate :: "int \<Rightarrow> int"
  getTimes :: "int \<Rightarrow> 'c \<Rightarrow> 'c \<Rightarrow> GetTimesResult"

text \<open>Reading \<^verbatim>\<open>position.latitude\<close> of a device without a position throws.\<close>

datatype error = TypeError

subsection \<open>Timers and listeners\<close>

text \<open>\<^verbatim>\<open>clearTimeout(h)\<close>: the timer \<open>h\<close> is no longer pending; \<^verbatim>\<open>undefined\<close> and a handle
  that is not pending are ignored.\<close>

definition clearTimeout :: "nat option \<Rightarrow> sensor \<Rightarrow> sensor" where
  "clearTimeout h s =
     (case h of
        None \<Rightarrow> s
      | Some k \<Rightarrow> s\<lparr>pending := filter (\<lambda>e. fst e \<noteq> k) (pending s)\<rparr>)"

text \<open>\<^verbatim>\<open>setTimeout(cb, delay)\<close>: a fresh handle, pending from now on.\<close>

definition setTimeout :: "callback \<Rightarrow> int \<Rightarrow> sensor \<Rightarrow> nat \<times> sensor" where
  "setTimeout cb d s =
     (nextTimeout s,
      s\<lparr>pending := pending s @ [(nextTimeout s, \<lparr>armedAt = clock s, delay = d, handler = cb\<rparr>)],
        nextTimeout := Suc (nextTimeout s)\<rparr>)"

text \<open>\<^verbatim>\<open>positionListener?.removeListener()\<close>.\<close>

definition removeListener :: "nat option \<Rightarrow> sensor \<Rightarrow> sensor" where
  "removeListener l s =
     (case l of
        None \<Rightarrow> s
      | Some k \<Rightarrow> s\<lparr>listeners := filter (\<lambda>x. x \<noteq> k) (listeners s)\<rparr>)"

text \<open>\<^verbatim>\<open>positionSensor.listen(ScryptedInterface.PositionSensor, () => this.setupSensor())\<close>.\<close>

definition listen :: "sensor \<Rightarrow> nat \<times> sensor" where
  "listen s =
     (nextListener s,
      s\<lparr>listeners := listeners s @ [nextListener s], nextListener := Suc (nextListener s)\<rparr>)"

subsection \<open>The methods of the sensor\<close>

text \<open>\<^verbatim>\<open>release()\<close>, lines 76 to 80. The three fields keep their values.\<close>

definition release :: "sensor \<Rightarrow> sensor" where
  "release s =
     (let s = removeListener (positionListener s) s;
          s = clearTimeout (startTimeout s) s;
          s = clearTimeout (endTimeout s) s
      in s)"

text \<open>
  The test \<^verbatim>\<open>d.getTime() > now\<close> together with the delay \<^verbatim>\<open>d.getTime() - now\<close> computed
  under it (lines 85 and 86, and alike at 91, 103 and 109).
\<close>

definition delayUntil :: "date \<Rightarrow> int \<Rightarrow> int option" where
  "delayUntil d now =
     (case d of
        None \<Rightarrow> None
      | Some t \<Rightarrow> if t > now then Some (t - now) else None)"

text \<open>\<^verbatim>\<open>doSunrise(times)\<close>, lines 82 to 98: the flag \<^verbatim>\<open>hasEvent\<close> and the sensor after it.\<close>

definition doSunrise :: "GetTimesResult \<Rightarrow> sensor \<Rightarrow> bool \<times> sensor" where
  "doSunrise times' s =
     (let now = clock s;
          hasEvent = False;
          (hasEvent, s) =
            (case delayUntil (sunrise times') now of
               Some d \<Rightarrow>
                 (let (h, s) = setTimeout Trigger d s
                  in (True, s\<lparr>startTimeout := Some h\<rparr>))
             | None \<Rightarrow> (hasEvent, s));
          (hasEvent, s) =
            (case delayUntil (sunriseEnd times') now of
               Some d \<Rightarrow>
                 (let (h, s) = setTimeout Untrigger d s
                  in (True, s\<lparr>endTimeout := Some h\<rparr>))
             | None \<Rightarrow> (hasEvent, s))
      in (hasEvent, s))"

text \<open>\<^verbatim>\<open>doSunset(times)\<close>, lines 100 to 116.\<close>

definition doSunset :: "GetTimesResult \<Rightarrow> sensor \<Rightarrow> bool \<times> sensor" where
  "doSunset times' s =
     (let now = clock s;
          hasEvent = False;
          (hasEvent, s) =
            (case delayUntil (sunsetStart times') now of
               Some d \<Rightarrow>
                 (let (h, s) = setTimeout Trigger d s
                  in (True, s\<lparr>startTimeout := Some h\<rparr>))
             | None \<Rightarrow> (hasEvent, s));
          (hasEvent, s) =
            (case delayUntil (sunset times') now of
               Some d \<Rightarrow>
                 (let (h, s) = setTimeout Untrigger d s
                  in (True, s\<lparr>endTimeout := Some h\<rparr>))
             | None \<Rightarrow> (hasEvent, s))
      in (hasEvent, s))"

text \<open>The operator \<^verbatim>\<open>||\<close> of lines 70 and 72 on two arming calls: the right one runs only
  when the left one returned false.\<close>

definition orElse ::
  "(sensor \<Rightarrow> bool \<times> sensor) \<Rightarrow> (sensor \<Rightarrow> bool \<times> sensor) \<Rightarrow> sensor \<Rightarrow> bool \<times> sensor" where
  "orElse f g s = (let (b, s') = f s in if b then (True, s') else g s')"

text \<open>\<^verbatim>\<open>!mode\<close> on the stored string: \<^verbatim>\<open>undefined\<close> and the empty string are falsy.\<close>

definition falsy :: "string option \<Rightarrow> bool" where
  "falsy m = (m = None \<or> m = Some [])"

text \<open>
  \<^verbatim>\<open>setupSensor()\<close>, lines 46 to 74. The result is the exception thrown, if any, and the
  sensor as the run leaves it: what was done before a throw stays done.
\<close>

definition setupSensor :: "'c host \<Rightarrow> 'c settings \<Rightarrow> sensor \<Rightarrow> error option \<times> sensor" where
  "setupSensor host values s =
     (let s = release s
      in case linkedPositionSensor values of
           None \<Rightarrow> (None, s)
         | Some positionSensor \<Rightarrow>
             (if falsy (mode values) then (None, s)
              else
                let (l, s) = listen s;
                    s = s\<lparr>positionListener := Some l\<rparr>;
                    todayMidnight = setHours0 host (clock s);
                    tomorrowMidnight = nextDate host todayMidnight;
                    dayAfterTomorrowMidnight = nextDate host tomorrowMidnight
                in (case position positionSensor of
                      None \<Rightarrow> (Some TypeError, s)
                    | Some p \<Rightarrow>
                        (let todayTimes =
                               getTimes host todayMidnight (latitude p) (longitude p);
                             tomorrowTimes =
                               getTimes host tomorrowMidnight (latitude p) (longitude p);
                             dayAfterTomorrowTimes =
                               getTimes host dayAfterTomorrowMidnight (latitude p) (longitude p)
                         in if mode values = Some ''sunrise''
                            then (None, snd (orElse (doSunrise todayTimes)
                                    (orElse (doSunrise tomorrowTimes)
                                       (doSunrise dayAfterTomorrowTimes)) s))
                            else (None, snd (orElse (doSunset todayTimes)
                                    (orElse (doSunset tomorrowTimes)
                                       (doSunrise dayAfterTomorrowTimes)) s))))))"

text \<open>\<^verbatim>\<open>trigger()\<close>, lines 118 to 120, and \<^verbatim>\<open>untrigger()\<close>, lines 122 to 125.\<close>

definition trigger :: "sensor \<Rightarrow> sensor" where
  "trigger s = s\<lparr>binaryState := Some True\<rparr>"

definition untrigger :: "'c host \<Rightarrow> 'c settings \<Rightarrow> sensor \<Rightarrow> error option \<times> sensor" where
  "untrigger host values s =
     (let s = s\<lparr>binaryState := Some False\<rparr>
      in setupSensor host values s)"

subsection \<open>The event loop around the sensor\<close>

text \<open>
  The sensor as the constructor finds it, before its call of \<^verbatim>\<open>setupSensor\<close>: nothing
  pending, no listener, the three fields undefined. The clock and the stored
  \<^verbatim>\<open>binaryState\<close> are whatever they are.
\<close>

definition init :: "int \<Rightarrow> bool option \<Rightarrow> sensor" where
  "init t0 b =
     \<lparr>clock = t0, pending = [], nextTimeout = 0, listeners = [], nextListener = 0,
      positionListener = None, startTimeout = None, endTimeout = None, binaryState = b\<rparr>"

text \<open>
  A pending timer fires once, at or after the instant it is due: it leaves the queue and
  its closure runs. \<open>None\<close> says that the timer \<open>h\<close> cannot fire in \<open>s\<close>.
\<close>

definition fire ::
  "'c host \<Rightarrow> 'c settings \<Rightarrow> nat \<Rightarrow> sensor \<Rightarrow> (error option \<times> sensor) option" where
  "fire host values h s =
     (case map_of (pending s) h of
        None \<Rightarrow> None
      | Some t \<Rightarrow>
          if due t \<le> clock s
          then Some (let s = clearTimeout (Some h) s
                     in case handler t of
                          Trigger \<Rightarrow> (None, trigger s)
                        | Untrigger \<Rightarrow> untrigger host values s)
          else None)"

text \<open>
  What can happen to a sensor: \<^verbatim>\<open>setupSensor\<close> is called (by the constructor or by
  \<^verbatim>\<open>putSetting\<close>), a registered position listener is notified, time passes, a timer
  fires, \<^verbatim>\<open>release\<close> is called.
\<close>

datatype event = Configure | PositionChanged nat | Elapse nat | Fire nat | Release

text \<open>One event, under the host and the settings of its moment. An event that cannot
  happen (a listener that is not registered, a timer that cannot fire) changes nothing;
  an exception thrown inside a callback is lost.\<close>

definition occur :: "'c host \<Rightarrow> 'c settings \<Rightarrow> event \<Rightarrow> sensor \<Rightarrow> sensor" where
  "occur host values e s =
     (case e of
        Configure \<Rightarrow> snd (setupSensor host values s)
      | PositionChanged l \<Rightarrow>
          if l \<in> set (listeners s) then snd (setupSensor host values s) else s
      | Elapse n \<Rightarrow> s\<lparr>clock := clock s + int n\<rparr>
      | Fire h \<Rightarrow> (case fire host values h s of None \<Rightarrow> s | Some r \<Rightarrow> snd r)
      | Release \<Rightarrow> release s)"

text \<open>A history: the events in the order they happen, each with its host and settings.\<close>

fun run :: "('c host \<times> 'c settings \<times> event) list \<Rightarrow> sensor \<Rightarrow> sensor" where
  "run [] s = s"
| "run ((host, values, e) # es) s = run es (occur host values e s)"

subsection \<open>Notions used in the statements\<close>

text \<open>Lines 53 and 54 on their own: the sensor after \<^verbatim>\<open>listen\<close> and the assignment to
  \<^verbatim>\<open>positionListener\<close>.\<close>

definition subscribe :: "sensor \<Rightarrow> sensor" where
  "subscribe s = (let (l, s) = listen s in s\<lparr>positionListener := Some l\<rparr>)"

text \<open>The three midnights of lines 58 to 63 and the solar times of lines 65 to 67.\<close>

definition todayTimes :: "'c host \<Rightarrow> 'c position \<Rightarrow> int \<Rightarrow> GetTimesResult" where
  "todayTimes host p now = getTimes host (setHours0 host now) (latitude p) (longitude p)"

definition tomorrowTimes :: "'c host \<Rightarrow> 'c position \<Rightarrow> int \<Rightarrow> GetTimesResult" where
  "tomorrowTimes host p now =
     getTimes host (nextDate host (setHours0 host now)) (latitude p) (longitude p)"

definition dayAfterTomorrowTimes :: "'c host \<Rightarrow> 'c position \<Rightarrow> int \<Rightarrow> GetTimesResult" where
  "dayAfterTomorrowTimes host p now =
     getTimes host (nextDate host (nextDate host (setHours0 host now)))
       (latitude p) (longitude p)"

text \<open>
  The arming calls of one run in the order the \<^verbatim>\<open>||\<close> chain makes them: line 70 for the
  mode \<^verbatim>\<open>sunrise\<close>, line 72 for every other mode.
\<close>

definition attempts ::
  "'c host \<Rightarrow> string option \<Rightarrow> 'c position \<Rightarrow> int \<Rightarrow> (sensor \<Rightarrow> bool \<times> sensor) list" where
  "attempts host m p now =
     (if m = Some ''sunrise''
      then [doSunrise (todayTimes host p now), doSunrise (tomorrowTimes host p now),
            doSunrise (dayAfterTomorrowTimes host p now)]
      else [doSunset (todayTimes host p now), doSunset (tomorrowTimes host p now),
            doSunrise (dayAfterTomorrowTimes host p now)])"

text \<open>The timer that arming owes an instant: one, due at the instant, exactly when the
  instant is strictly after now; none for an instant at or before now and for an
  Invalid Date.\<close>

definition timerFor :: "callback \<Rightarrow> date \<Rightarrow> int \<Rightarrow> Timeout list" where
  "timerFor cb d now =
     (case d of
        None \<Rightarrow> []
      | Some t \<Rightarrow> if now < t then [\<lparr>armedAt = now, delay = t - now, handler = cb\<rparr>] else [])"

text \<open>The timers a call armed: those pending after it beyond the ones pending before.\<close>

definition armedBy :: "sensor \<Rightarrow> sensor \<Rightarrow> Timeout list" where
  "armedBy s s' = map snd (drop (length (pending s)) (pending s'))"

text \<open>
  The bookkeeping that every history keeps: each pending timer has a handle already
  given out and is the one the field for its closure holds, and a registered listener is
  the one in \<^verbatim>\<open>positionListener\<close>.
\<close>

definition owned :: "sensor \<Rightarrow> bool" where
  "owned s =
     (list_all (\<lambda>e. fst e < nextTimeout s \<and>
          (case handler (snd e) of
             Trigger \<Rightarrow> startTimeout s = Some (fst e)
           | Untrigger \<Rightarrow> endTimeout s = Some (fst e))) (pending s) \<and>
      list_all (\<lambda>l. positionListener s = Some l) (listeners s))"

text \<open>
  Both arming routines have one shape: two tests, each arming its own timer. \<open>arm\<close>
  writes that shape out by the four outcomes of the two tests; \<open>doSunrise\<close> is \<open>arm\<close>
  on the pair sunrise and sunriseEnd, \<open>doSunset\<close> on the pair sunsetStart and sunset.
\<close>

definition arm :: "date \<Rightarrow> date \<Rightarrow> sensor \<Rightarrow> bool \<times> sensor" where
  "arm a b s =
     (case (delayUntil a (clock s), delayUntil b (clock s)) of
        (None, None) \<Rightarrow> (False, s)
      | (Some x, None) \<Rightarrow>
          (True,
           s\<lparr>pending := pending s @
                [(nextTimeout s, \<lparr>armedAt = clock s, delay = x, handler = Trigger\<rparr>)],
             nextTimeout := Suc (nextTimeout s),
             startTimeout := Some (nextTimeout s)\<rparr>)
      | (None, Some y) \<Rightarrow>
          (True,
           s\<lparr>pending := pending s @
                [(nextTimeout s, \<lparr>armedAt = clock s, delay = y, handler = Untrigger\<rparr>)],
             nextTimeout := Suc (nextTimeout s),
             endTimeout := Some (nextTimeout s)\<rparr>)
      | (Some x, Some y) \<Rightarrow>
          (True,
           s\<lparr>pending := pending s @
                [(nextTimeout s, \<lparr>armedAt = clock s, delay = x, handler = Trigger\<rparr>),
                 (Suc (nextTimeout s), \<lparr>armedAt = clock s, delay = y, handler = Untrigger\<rparr>)],
             nextTimeout := Suc (Suc (nextTimeout s)),
             startTimeout := Some (nextTimeout s),
             endTimeout := Some (Suc (nextTimeout s))\<rparr>))"

text \<open>The sensor after the first call of a list that reports an event, the calls after
  it not made; the sensor as it was when no call reports one.\<close>

definition firstOf :: "(sensor \<Rightarrow> bool \<times> sensor) list \<Rightarrow> sensor \<Rightarrow> sensor" where
  "firstOf as s = (case find (\<lambda>a. fst (a s)) as of None \<Rightarrow> s | Some a \<Rightarrow> snd (a s))"

text \<open>A handle that was given out and is not pending: its timer has fired or was
  cleared.\<close>

definition spent :: "nat \<Rightarrow> sensor \<Rightarrow> bool" where
  "spent h s = (h < nextTimeout s \<and> h \<notin> fst ` set (pending s))"

text \<open>The settings under which line 49 returns: no linked sensor, or a falsy mode.\<close>

definition incomplete :: "'c settings \<Rightarrow> bool" where
  "incomplete cfg = (linkedPositionSensor cfg = None \<or> falsy (mode cfg))"

text \<open>The events that are not a call of \<^verbatim>\<open>setupSensor\<close> from outside: time passing,
  a timer firing, \<^verbatim>\<open>release\<close>.\<close>

definition idleEvent :: "event \<Rightarrow> bool" where
  "idleEvent e = (case e of Elapse n \<Rightarrow> True | Fire h \<Rightarrow> True | Release \<Rightarrow> True | _ \<Rightarrow> False)"

text \<open>The invariant of the solar calculator on a pair of instants: when both are valid
  dates, the start is not after the end.\<close>

definition ordered :: "date \<Rightarrow> date \<Rightarrow> bool" where
  "ordered a b = (case (a, b) of (Some x, Some y) \<Rightarrow> x \<le> y | _ \<Rightarrow> True)"

text \<open>Among some timers, every start timer is due no later than every end timer, and
  its delay is no longer.\<close>

definition startBeforeEnd :: "Timeout list \<Rightarrow> bool" where
  "startBeforeEnd ts =
     list_all (\<lambda>t1. list_all (\<lambda>t2.
       handler t1 = Trigger \<and> handler t2 = Untrigger \<longrightarrow>
         due t1 \<le> due t2 \<and> delay t1 \<le> delay t2) ts) ts"

subsection \<open>Hosts and settings for the examples\<close>

text \<open>
  A host whose days are the multiples of 86400000 ms and whose solar calculator, asked
  for a midnight, answers with the events of the day before it: sunrise from 06:00 to
  06:03, sunset from 17:57 to 18:00.
\<close>

definition westHost :: "int host" where
  "westHost =
     \<lparr>setHours0 = (\<lambda>t. t - t mod 86400000),
      nextDate = (\<lambda>t. t + 86400000),
      getTimes = (\<lambda>d lat lon.
        \<lparr>sunrise = Some (d - 64800000), sunriseEnd = Some (d - 64620000),
         sunsetStart = Some (d - 21780000), sunset = Some (d - 21600000)\<rparr>)\<rparr>"

text \<open>The same host with a solar calculator that finds no sunset: sunsetStart and
  sunset are the Invalid Date on every day.\<close>

definition noSunsetHost :: "int host" where
  "noSunsetHost =
     \<lparr>setHours0 = (\<lambda>t. t - t mod 86400000),
      nextDate = (\<lambda>t. t + 86400000),
      getTimes = (\<lambda>d lat lon.
        \<lparr>sunrise = Some (d - 64800000), sunriseEnd = Some (d - 64620000),
         sunsetStart = None, sunset = None\<rparr>)\<rparr>"

text \<open>Settings with a linked sensor at 47 North, 122 West and the given mode.\<close>

definition linked :: "string option \<Rightarrow> int settings" where
  "linked m =
     \<lparr>linkedPositionSensor = Some \<lparr>position = Some \<lparr>latitude = 47, longitude = - 122\<rparr>\<rparr>,
      mode = m\<rparr>"

text \<open>Settings with a linked device that reports no position, and the given mode.\<close>

definition unlocated :: "string option \<Rightarrow> int settings" where
  "unlocated m = \<lparr>linkedPositionSensor = Some \<lparr>position = None\<rparr>, mode = m\<rparr>"

section \<open>Lemmas about the model\<close>

text \<open>The definitions that evaluating the model on a concrete input unfolds.\<close>

lemmas model_defs =
  setupSensor_def release_def removeListener_def clearTimeout_def listen_def setTimeout_def
  doSunrise_def doSunset_def orElse_def delayUntil_def falsy_def trigger_def untrigger_def
  fire_def occur_def init_def due_def Let_def

lemmas example_defs = westHost_def noSunsetHost_def linked_def unlocated_def

lemma doSunrise_arm: "doSunrise ts s = arm (sunrise ts) (sunriseEnd ts) s"
  by (simp add: doSunrise_def arm_def setTimeout_def Let_def split: option.splits)

lemma doSunset_arm: "doSunset ts s = arm (sunsetStart ts) (sunset ts) s"
  by (simp add: doSunset_def arm_def setTimeout_def Let_def split: option.splits)

lemma timerFor_delayUntil:
  "timerFor cb d now =
     (case delayUntil d now of None \<Rightarrow> [] | Some x \<Rightarrow> [\<lparr>armedAt = now, delay = x, handler = cb\<rparr>])"
  by (simp add: timerFor_def delayUntil_def split: option.splits)

lemma arm_fst: "fst (arm a b s) = (delayUntil a (clock s) \<noteq> None \<or> delayUntil b (clock s) \<noteq> None)"
  by (simp add: arm_def split: option.splits)

lemma arm_idle: "\<not> fst (arm a b s) \<Longrightarrow> arm a b s = (False, s)"
  by (simp add: arm_def split: option.splits)

lemma arm_frame:
  "clock (snd (arm a b s)) = clock s"
  "listeners (snd (arm a b s)) = listeners s"
  "nextListener (snd (arm a b s)) = nextListener s"
  "positionListener (snd (arm a b s)) = positionListener s"
  "binaryState (snd (arm a b s)) = binaryState s"
  by (simp_all add: arm_def split: option.splits)

lemma arm_pending:
  "\<exists>new. pending (snd (arm a b s)) = pending s @ new \<and>
     map snd new = timerFor Trigger a (clock s) @ timerFor Untrigger b (clock s) \<and>
     nextTimeout (snd (arm a b s)) = nextTimeout s + length new \<and>
     map fst new = [nextTimeout s ..< nextTimeout s + length new]"
  by (simp add: arm_def timerFor_delayUntil split: option.splits)

lemma arm_armedBy:
  "armedBy s (snd (arm a b s)) = timerFor Trigger a (clock s) @ timerFor Untrigger b (clock s)"
  using arm_pending [of a b s] by (auto simp: armedBy_def)

lemma arm_owned:
  "pending s = [] \<Longrightarrow> list_all (\<lambda>l. positionListener s = Some l) (listeners s) \<Longrightarrow>
   owned (snd (arm a b s))"
  by (simp add: arm_def owned_def split: option.splits)

lemma release_frame:
  "clock (release s) = clock s"
  "nextTimeout (release s) = nextTimeout s"
  "nextListener (release s) = nextListener s"
  "positionListener (release s) = positionListener s"
  "startTimeout (release s) = startTimeout s"
  "endTimeout (release s) = endTimeout s"
  "binaryState (release s) = binaryState s"
  by (simp_all add: release_def removeListener_def clearTimeout_def Let_def split: option.splits)

lemma release_pending:
  "pending (release s) =
     filter (\<lambda>e. Some (fst e) \<noteq> startTimeout s \<and> Some (fst e) \<noteq> endTimeout s) (pending s)"
  by (auto simp: release_def removeListener_def clearTimeout_def Let_def 
       split: option.splits intro: filter_cong)

lemma release_listeners:
  "listeners (release s) = filter (\<lambda>l. Some l \<noteq> positionListener s) (listeners s)"
  by (auto simp: release_def removeListener_def clearTimeout_def Let_def
       split: option.splits intro: filter_cong)

lemma owned_pending:
  assumes "owned s" and "(h, t) \<in> set (pending s)"
  shows "h < nextTimeout s \<and> (handler t = Trigger \<longrightarrow> startTimeout s = Some h) \<and>
     (handler t = Untrigger \<longrightarrow> endTimeout s = Some h)"
  using assms by (cases "handler t") (auto simp: owned_def list_all_iff)

lemma owned_release_pending: "owned s \<Longrightarrow> pending (release s) = []"
proof -
  assume o: "owned s"
  have "Some (fst e) = startTimeout s \<or> Some (fst e) = endTimeout s"
    if "e \<in> set (pending s)" for e
    using owned_pending [OF o, of "fst e" "snd e"] that
    by (cases "handler (snd e)") auto
  then show ?thesis
    by (auto simp: release_pending filter_empty_conv)
qed

lemma owned_release_listeners: "owned s \<Longrightarrow> listeners (release s) = []"
  by (auto simp: release_listeners owned_def list_all_iff filter_empty_conv)

lemma owned_release: "owned s \<Longrightarrow> owned (release s)"
  using owned_release_pending [of s] owned_release_listeners [of s]
  by (simp add: owned_def)

lemma subscribe_frame:
  "clock (subscribe s) = clock s"
  "pending (subscribe s) = pending s"
  "nextTimeout (subscribe s) = nextTimeout s"
  "startTimeout (subscribe s) = startTimeout s"
  "endTimeout (subscribe s) = endTimeout s"
  "binaryState (subscribe s) = binaryState s"
  "listeners (subscribe s) = listeners s @ [nextListener s]"
  "positionListener (subscribe s) = Some (nextListener s)"
  by (simp_all add: subscribe_def listen_def)

lemma setupSensor_quiet:
  "linkedPositionSensor cfg = None \<or> falsy (mode cfg) \<Longrightarrow>
   setupSensor host cfg s = (None, release s)"
  by (auto simp: setupSensor_def Let_def split: option.splits)

lemma setupSensor_throws:
  "linkedPositionSensor cfg = Some d \<Longrightarrow> \<not> falsy (mode cfg) \<Longrightarrow> position d = None \<Longrightarrow>
   setupSensor host cfg s = (Some TypeError, subscribe (release s))"
  by (simp add: setupSensor_def Let_def subscribe_def split_def)

lemma orElse_chain:
  assumes "\<And>a. a \<in> {a0, a1, a2} \<Longrightarrow> \<not> fst (a s) \<Longrightarrow> snd (a s) = s"
  shows "snd (orElse a0 (orElse a1 a2) s) = firstOf [a0, a1, a2] s"
  using assms by (auto simp: orElse_def firstOf_def split_def)

lemma attempt_idle:
  "a \<in> set (attempts host m p now) \<Longrightarrow> \<not> fst (a s) \<Longrightarrow> snd (a s) = s"
  by (auto simp: attempts_def doSunrise_arm doSunset_arm arm_idle split: if_splits)

lemma setupSensor_chain:
  "linkedPositionSensor cfg = Some d \<Longrightarrow> \<not> falsy (mode cfg) \<Longrightarrow> position d = Some p \<Longrightarrow>
   setupSensor host cfg s =
     (None, snd ((case attempts host (mode cfg) p (clock s) of
        [a0, a1, a2] \<Rightarrow> orElse a0 (orElse a1 a2)) (subscribe (release s))))"
  by (simp add: setupSensor_def Let_def subscribe_def split_def attempts_def
        todayTimes_def tomorrowTimes_def dayAfterTomorrowTimes_def release_frame listen_def)

lemma setupSensor_arms:
  assumes "linkedPositionSensor cfg = Some d" "\<not> falsy (mode cfg)" "position d = Some p"
  shows "setupSensor host cfg s =
     (None, firstOf (attempts host (mode cfg) p (clock s)) (subscribe (release s)))"
proof -
  obtain a0 a1 a2 where as: "attempts host (mode cfg) p (clock s) = [a0, a1, a2]"
    by (cases "mode cfg = Some ''sunrise''") (simp_all add: attempts_def)
  have "snd (orElse a0 (orElse a1 a2) (subscribe (release s))) =
      firstOf [a0, a1, a2] (subscribe (release s))"
    by (rule orElse_chain) (rule attempt_idle [of _ host "mode cfg" p "clock s"], simp add: as)
  then show ?thesis
    using setupSensor_chain [OF assms, of host s] by (simp add: as)
qed


lemma attempt_arm:
  "a \<in> set (attempts host m p now) \<Longrightarrow> \<exists>x y. a = arm x y"
  by (auto simp: attempts_def doSunrise_arm doSunset_arm fun_eq_iff split: if_splits)

lemma firstOf_cases:
  "firstOf as s = s \<or> (\<exists>a \<in> set as. fst (a s) \<and> firstOf as s = snd (a s))"
  by (auto simp: firstOf_def find_Some_iff split: option.splits)

lemma arm_None: "arm None None s = (False, s)"
  by (simp add: arm_def delayUntil_def)

lemma setupSensor_shape:
  "snd (setupSensor host cfg s) = release s \<or>
   (\<exists>a b. snd (setupSensor host cfg s) = snd (arm a b (subscribe (release s))))"
proof (cases "linkedPositionSensor cfg = None \<or> falsy (mode cfg)")
  case True
  then show ?thesis by (simp add: setupSensor_quiet)
next
  case False
  then obtain d where d: "linkedPositionSensor cfg = Some d" and m: "\<not> falsy (mode cfg)"
    by auto
  show ?thesis
  proof (cases "position d")
    case None
    then have "snd (setupSensor host cfg s) = snd (arm None None (subscribe (release s)))"
      by (simp add: setupSensor_throws [OF d m] arm_None)
    then show ?thesis by blast
  next
    case (Some p)
    let ?b = "subscribe (release s)"
    let ?as = "attempts host (mode cfg) p (clock s)"
    have eq: "snd (setupSensor host cfg s) = firstOf ?as ?b"
      by (simp add: setupSensor_arms [OF d m Some])
    from firstOf_cases [of ?as ?b] show ?thesis
    proof
      assume "firstOf ?as ?b = ?b"
      then have "snd (setupSensor host cfg s) = snd (arm None None ?b)"
        by (simp add: eq arm_None)
      then show ?thesis by blast
    next
      assume "\<exists>a \<in> set ?as. fst (a ?b) \<and> firstOf ?as ?b = snd (a ?b)"
      then obtain a where "a \<in> set ?as" and f: "firstOf ?as ?b = snd (a ?b)" by blast
      then obtain x y where "a = arm x y" using attempt_arm by blast
      with f eq show ?thesis by auto
    qed
  qed
qed

lemma setupSensor_clock: "clock (snd (setupSensor host cfg s)) = clock s"
  using setupSensor_shape [of host cfg s]
  by (auto simp: arm_frame subscribe_frame release_frame)

lemma setupSensor_binaryState: "binaryState (snd (setupSensor host cfg s)) = binaryState s"
  using setupSensor_shape [of host cfg s]
  by (auto simp: arm_frame subscribe_frame release_frame)

lemma setupSensor_owned:
  assumes "owned s" shows "owned (snd (setupSensor host cfg s))"
proof -
  have p: "pending (subscribe (release s)) = []"
    by (simp add: subscribe_frame owned_release_pending [OF assms])
  have l: "list_all (\<lambda>l. positionListener (subscribe (release s)) = Some l)
      (listeners (subscribe (release s)))"
    by (simp add: subscribe_frame owned_release_listeners [OF assms] release_frame)
  from setupSensor_shape [of host cfg s] show ?thesis
    using owned_release [OF assms] arm_owned [OF p l] by auto
qed

lemma owned_init: "owned (init t0 b)"
  by (simp add: owned_def init_def)

lemma clearTimeout_owned: "owned s \<Longrightarrow> owned (clearTimeout h s)"
  by (cases h) (auto simp: owned_def clearTimeout_def list_all_iff cong: callback.case_cong)

lemma owned_binaryState: "owned (s\<lparr>binaryState := b\<rparr>) = owned s"
  by (simp add: owned_def cong: callback.case_cong)

lemma owned_clock: "owned (s\<lparr>clock := c\<rparr>) = owned s"
  by (simp add: owned_def cong: callback.case_cong)

lemma fire_owned: "owned s \<Longrightarrow> fire host cfg h s = Some r \<Longrightarrow> owned (snd r)"
  by (auto simp: fire_def Let_def trigger_def untrigger_def owned_binaryState
        clearTimeout_owned setupSensor_owned split: option.splits if_splits callback.splits)

lemma occur_owned: "owned s \<Longrightarrow> owned (occur host cfg e s)"
  by (cases e)
     (auto simp: occur_def setupSensor_owned owned_clock owned_release
        split: option.splits dest: fire_owned)

lemma run_owned: "owned s \<Longrightarrow> owned (run tr s)"
  by (induction tr s rule: run.induct) (simp_all add: occur_owned)

lemma history_owned: "owned (run tr (init t0 b))"
  by (simp add: run_owned owned_init)

lemma arm_take: "take (length (pending s)) (pending (snd (arm a b s))) = pending s"
  using arm_pending [of a b s] by auto

lemma timerFor_future: "list_all (\<lambda>t. now < due t \<and> armedAt t = now) (timerFor cb d now)"
  by (simp add: timerFor_def due_def split: option.splits)

lemma arm_future:
  "pending s = [] \<Longrightarrow> list_all (\<lambda>e. clock s < due (snd e)) (pending (snd (arm a b s)))"
proof -
  assume e: "pending s = []"
  have "list_all (\<lambda>t. clock s < due t) (map snd (pending (snd (arm a b s))))"
    using arm_armedBy [of s a b] timerFor_future [of "clock s" Trigger a]
      timerFor_future [of "clock s" Untrigger b]
    by (auto simp: armedBy_def e list_all_iff)
  then show ?thesis by (simp add: list_all_iff)
qed

lemma setupSensor_future:
  assumes "owned s"
  shows "list_all (\<lambda>e. clock s < due (snd e)) (pending (snd (setupSensor host cfg s)))"
proof -
  have p: "pending (subscribe (release s)) = []"
    by (simp add: subscribe_frame owned_release_pending [OF assms])
  have c: "clock (subscribe (release s)) = clock s"
    by (simp add: subscribe_frame release_frame)
  from setupSensor_shape [of host cfg s] show ?thesis
    using arm_future [OF p] owned_release_pending [OF assms] by (auto simp: c)
qed

lemma arm_spent: "spent h s \<Longrightarrow> spent h (snd (arm a b s))"
  using arm_pending [of a b s] by (auto simp: spent_def image_Un simp flip: set_map)

lemma release_spent: "spent h s \<Longrightarrow> spent h (release s)"
  by (auto simp: spent_def release_frame release_pending)

lemma subscribe_spent: "spent h (subscribe s) = spent h s"
  by (simp add: spent_def subscribe_frame)

lemma setupSensor_spent: "spent h s \<Longrightarrow> spent h (snd (setupSensor host cfg s))"
  using setupSensor_shape [of host cfg s]
  by (auto simp: release_spent arm_spent subscribe_spent)

lemma clearTimeout_spent: "spent h s \<Longrightarrow> spent h (clearTimeout k s)"
  by (cases k) (auto simp: spent_def clearTimeout_def)

lemma spent_binaryState: "spent h (s\<lparr>binaryState := b\<rparr>) = spent h s"
  by (simp add: spent_def)

lemma fire_spent: "spent h s \<Longrightarrow> fire host cfg k s = Some r \<Longrightarrow> spent h (snd r)"
  by (auto simp: fire_def Let_def trigger_def untrigger_def spent_binaryState
        clearTimeout_spent setupSensor_spent split: option.splits if_splits callback.splits)

lemma occur_spent: "spent h s \<Longrightarrow> spent h (occur host cfg e s)"
  by (cases e)
     (auto simp: occur_def setupSensor_spent release_spent split: option.splits
        dest: fire_spent, simp add: spent_def)

lemma run_spent: "spent h s \<Longrightarrow> spent h (run tr s)"
  by (induction tr s rule: run.induct) (simp_all add: occur_spent)

lemma spent_fire: "spent h s \<Longrightarrow> fire host cfg h s = None"
proof -
  assume "spent h s"
  then have "map_of (pending s) h = None"
    by (simp add: spent_def map_of_eq_None_iff)
  then show ?thesis by (simp add: fire_def)
qed

lemma arm_fresh:
  "pending s = [] \<Longrightarrow>
   list_all (\<lambda>e. nextTimeout s \<le> fst e \<and> armedAt (snd e) = clock s) (pending (snd (arm a b s)))"
  by (simp add: arm_def split: option.splits)

lemma setupSensor_fresh:
  assumes "owned s"
  shows "list_all (\<lambda>e. nextTimeout s \<le> fst e \<and> armedAt (snd e) = clock s)
    (pending (snd (setupSensor host cfg s)))"
proof -
  have p: "pending (subscribe (release s)) = []"
    by (simp add: subscribe_frame owned_release_pending [OF assms])
  from setupSensor_shape [of host cfg s] show ?thesis
    using arm_fresh [OF p, unfolded subscribe_frame release_frame]
      owned_release_pending [OF assms] by auto
qed

lemma owned_spent_release:
  "owned s \<Longrightarrow> h \<in> fst ` set (pending s) \<Longrightarrow> spent h (release s)"
  using owned_pending [of s h] by (auto simp: spent_def release_frame owned_release_pending)

lemma owned_spent_setupSensor:
  "owned s \<Longrightarrow> h \<in> fst ` set (pending s) \<Longrightarrow> spent h (snd (setupSensor host cfg s))"
  using owned_spent_release [of s h] setupSensor_shape [of host cfg s]
  by (auto simp: arm_spent subscribe_spent)

lemma quiet_run:
  "pending s = [] \<Longrightarrow> listeners s = [] \<Longrightarrow>
   list_all (\<lambda>x. snd (snd x) \<noteq> Configure \<or> incomplete (fst (snd x))) later \<Longrightarrow>
   pending (run later s) = [] \<and> listeners (run later s) = [] \<and>
   binaryState (run later s) = binaryState s"
proof (induction later s rule: run.induct)
  case (1 s)
  then show ?case by simp
next
  case (2 host cfg e es s)
  have "pending (occur host cfg e s) = [] \<and> listeners (occur host cfg e s) = [] \<and>
      binaryState (occur host cfg e s) = binaryState s"
    using "2.prems"
    by (cases e)
       (auto simp: occur_def incomplete_def setupSensor_quiet release_pending
          release_listeners release_frame fire_def)
  with 2 show ?case by simp
qed

lemma fire_Some:
  "fire host cfg h s = Some r \<Longrightarrow>
   \<exists>t. map_of (pending s) h = Some t \<and> due t \<le> clock s \<and>
     (case handler t of
        Trigger \<Rightarrow> r = (None, trigger (clearTimeout (Some h) s))
      | Untrigger \<Rightarrow> r = untrigger host cfg (clearTimeout (Some h) s))"
  by (auto simp: fire_def Let_def split: option.splits if_splits callback.splits)

lemma clearTimeout_frame:
  "clock (clearTimeout k s) = clock s"
  "nextTimeout (clearTimeout k s) = nextTimeout s"
  "binaryState (clearTimeout k s) = binaryState s"
  "listeners (clearTimeout k s) = listeners s"
  by (cases k; simp add: clearTimeout_def)+

lemma map_of_filter_other:
  "k \<noteq> h \<Longrightarrow> map_of (filter (\<lambda>e. fst e \<noteq> h) xs) k = map_of xs k"
  by (induction xs) auto

lemma arm_plan:
  "pending s = [] \<Longrightarrow>
   map snd (pending (snd (arm a b s))) =
     timerFor Trigger a (clock s) @ timerFor Untrigger b (clock s)"
  using arm_armedBy [of s a b] by (simp add: armedBy_def)

lemma firstOf_plan:
  assumes "pending s = []" "pending s' = []" "clock s = clock s'"
    and "\<And>a. a \<in> set as \<Longrightarrow> \<exists>x y. a = arm x y"
  shows "map snd (pending (firstOf as s)) = map snd (pending (firstOf as s'))"
proof -
  have "find (\<lambda>a. fst (a s)) as = find (\<lambda>a. fst (a s')) as"
  proof (rule find_cong [OF refl])
    fix a assume "a \<in> set as"
    then obtain x y where "a = arm x y" using assms(4) by blast
    then show "fst (a s) = fst (a s')" by (simp add: arm_fst assms(3))
  qed
  moreover have "map snd (pending (snd (a s))) = map snd (pending (snd (a s')))"
    if "find (\<lambda>a. fst (a s')) as = Some a" for a
  proof -
    from that have "a \<in> set as" by (auto simp: find_Some_iff)
    then obtain x y where "a = arm x y" using assms(4) by blast
    then show ?thesis by (simp add: arm_plan assms)
  qed
  ultimately show ?thesis
    by (auto simp: firstOf_def assms split: option.splits)
qed

lemma setupSensor_plan:
  assumes "owned s" "owned s'" "clock s = clock s'"
  shows "map snd (pending (snd (setupSensor host cfg s))) =
      map snd (pending (snd (setupSensor host cfg s'))) \<and>
    fst (setupSensor host cfg s) = fst (setupSensor host cfg s')"
proof (cases "incomplete cfg")
  case True
  then show ?thesis
    by (simp add: incomplete_def setupSensor_quiet owned_release_pending assms)
next
  case False
  then obtain d where d: "linkedPositionSensor cfg = Some d" and m: "\<not> falsy (mode cfg)"
    by (auto simp: incomplete_def)
  have p: "pending (subscribe (release s)) = []" "pending (subscribe (release s')) = []"
    by (simp_all add: subscribe_frame owned_release_pending assms)
  have c: "clock (subscribe (release s)) = clock (subscribe (release s'))"
    by (simp add: subscribe_frame release_frame assms)
  show ?thesis
  proof (cases "position d")
    case None
    then show ?thesis by (simp add: setupSensor_throws [OF d m] p)
  next
    case (Some q)
    show ?thesis
      using firstOf_plan [OF p c, of "attempts host (mode cfg) q (clock s)"] attempt_arm
      by (simp add: setupSensor_arms [OF d m Some] assms(3) [symmetric]) blast
  qed
qed

lemma idle_run:
  "pending s = [] \<Longrightarrow> list_all (\<lambda>x. idleEvent (snd (snd x))) later \<Longrightarrow>
   pending (run later s) = [] \<and> binaryState (run later s) = binaryState s"
proof (induction later s rule: run.induct)
  case (1 s)
  then show ?case by simp
next
  case (2 host cfg e es s)
  have "pending (occur host cfg e s) = [] \<and>
      binaryState (occur host cfg e s) = binaryState s"
    using "2.prems"
    by (cases e) (auto simp: occur_def idleEvent_def release_pending release_frame fire_def)
  with 2 show ?case by simp
qed

lemma attempt_fst_clock:
  "a \<in> set (attempts host m p now) \<Longrightarrow> clock s = clock s' \<Longrightarrow> fst (a s) = fst (a s')"
  using attempt_arm [of a host m p now] by (auto simp: arm_fst)

lemma arm_startBeforeEnd:
  "ordered a b \<Longrightarrow> startBeforeEnd (armedBy s (snd (arm a b s)))"
  by (auto simp: arm_armedBy startBeforeEnd_def list_all_iff ordered_def timerFor_def due_def
        split: option.splits if_splits)

text \<open>When no arming call of a run reports an event, the run leaves the sensor
  subscribed and otherwise disarmed, and it stays so until the next run.\<close>

lemma no_reporting_call_stays_disarmed:
  assumes "linkedPositionSensor cfg = Some d" and "\<not> falsy (mode cfg)"
    and "position d = Some p"
    and "list_all (\<lambda>a. \<not> fst (a (run tr (init t0 b))))
           (attempts host (mode cfg) p (clock (run tr (init t0 b))))"
    and "list_all (\<lambda>x. idleEvent (snd (snd x))) later"
  shows "setupSensor host cfg (run tr (init t0 b)) =
      (None, subscribe (release (run tr (init t0 b)))) \<and>
    pending (subscribe (release (run tr (init t0 b)))) = [] \<and>
    binaryState (subscribe (release (run tr (init t0 b)))) =
      binaryState (run tr (init t0 b)) \<and>
    listeners (subscribe (release (run tr (init t0 b)))) =
      [nextListener (run tr (init t0 b))] \<and>
    pending (run later (subscribe (release (run tr (init t0 b))))) = [] \<and>
    binaryState (run later (subscribe (release (run tr (init t0 b))))) =
      binaryState (run tr (init t0 b))"
proof -
  let ?s = "run tr (init t0 b)"
  let ?q = "subscribe (release ?s)"
  let ?as = "attempts host (mode cfg) p (clock ?s)"
  have o: "owned ?s" by (rule history_owned)
  have p: "pending ?q = []"
    by (simp add: subscribe_frame owned_release_pending [OF o])
  have "\<not> fst (a ?q)" if "a \<in> set ?as" for a
    using that assms(4) attempt_fst_clock [OF that, of ?q ?s]
    by (simp add: list_all_iff subscribe_frame release_frame)
  then have "find (\<lambda>a. fst (a ?q)) ?as = None"
    by (simp add: find_None_iff)
  then have "setupSensor host cfg ?s = (None, ?q)"
    by (simp add: setupSensor_arms [OF assms(1-3)] firstOf_def)
  with idle_run [OF p assms(5)] p show ?thesis
    by (simp add: subscribe_frame release_frame owned_release_listeners [OF o])
qed

section \<open>The claims\<close>

subsection \<open>Arming\<close>

text \<open>
  Claim C1. In the mode sunset, when neither today nor tomorrow yields a future event,
  the pair armed should be the third day's sunsetStart and sunset. Line 72 calls
  \<^verbatim>\<open>doSunrise\<close> on the third day instead. At 20:00 of day 0 on the western host, in the
  mode sunset, the sunset pairs of the first two days are past and the third day's is
  ahead (151020000 and 151200000), yet the two timers armed are due at the third day's
  sunrise and sunriseEnd (108000000 and 108180000).
\<close>

theorem sunset_third_day_arms_sunrise_pair:
  "\<not> fst (doSunset (todayTimes westHost \<lparr>latitude = 47, longitude = - 122\<rparr> 72000000)
          (init 72000000 None)) \<and>
   \<not> fst (doSunset (tomorrowTimes westHost \<lparr>latitude = 47, longitude = - 122\<rparr> 72000000)
          (init 72000000 None)) \<and>
   sunsetStart (dayAfterTomorrowTimes westHost \<lparr>latitude = 47, longitude = - 122\<rparr> 72000000)
     = Some 151020000 \<and>
   sunset (dayAfterTomorrowTimes westHost \<lparr>latitude = 47, longitude = - 122\<rparr> 72000000)
     = Some 151200000 \<and>
   sunrise (dayAfterTomorrowTimes westHost \<lparr>latitude = 47, longitude = - 122\<rparr> 72000000)
     = Some 108000000 \<and>
   sunriseEnd (dayAfterTomorrowTimes westHost \<lparr>latitude = 47, longitude = - 122\<rparr> 72000000)
     = Some 108180000 \<and>
   map (\<lambda>e. (due (snd e), handler (snd e)))
     (pending (snd (setupSensor westHost (linked (Some ''sunset'')) (init 72000000 None)))) =
     [(108000000, Trigger), (108180000, Untrigger)]"
  by code_simp

text \<open>
  Claim C2. Arming looks at each of the two instants of a day on its own: the timers a
  call of \<^verbatim>\<open>doSunrise\<close> or \<^verbatim>\<open>doSunset\<close> arms are the start timer exactly when the start
  instant is strictly after now, followed by the end timer exactly when the end instant
  is strictly after now, each due at its instant, and the timers pending before stay
  as they were. After \<^verbatim>\<open>setupSensor\<close>, run at any point of any history, every pending
  timer is due strictly after now.
\<close>

theorem arming_only_strictly_future:
  "armedBy s (snd (doSunrise ts s)) =
     timerFor Trigger (sunrise ts) (clock s) @ timerFor Untrigger (sunriseEnd ts) (clock s) \<and>
   take (length (pending s)) (pending (snd (doSunrise ts s))) = pending s \<and>
   armedBy s (snd (doSunset ts s)) =
     timerFor Trigger (sunsetStart ts) (clock s) @ timerFor Untrigger (sunset ts) (clock s) \<and>
   take (length (pending s)) (pending (snd (doSunset ts s))) = pending s \<and>
   list_all (\<lambda>e. clock (run tr (init t0 b)) < due (snd e))
     (pending (snd (setupSensor host cfg (run tr (init t0 b)))))"
  by (simp add: doSunrise_arm doSunset_arm arm_armedBy arm_take setupSensor_future history_owned)

text \<open>
  Claim C3. With a linked sensor that has a position and a mode set, \<^verbatim>\<open>setupSensor\<close>
  makes its arming calls in the order today, tomorrow, day after tomorrow and ends with
  the first call that reports an event: the sensor it leaves is the one after that call,
  and the one after subscribing when no call reports an event. A call reports an event
  exactly when it armed at least one timer.
\<close>

theorem first_yielding_day_wins:
  assumes "linkedPositionSensor cfg = Some d" and "\<not> falsy (mode cfg)" and "position d = Some p"
  shows "setupSensor host cfg s =
      (None, firstOf (attempts host (mode cfg) p (clock s)) (subscribe (release s))) \<and>
    list_all (\<lambda>a. fst (a s') = (armedBy s' (snd (a s')) \<noteq> []))
      (attempts host (mode cfg) p (clock s))"
proof -
  have "fst (arm x y s') = (armedBy s' (snd (arm x y s')) \<noteq> [])" for x y
    by (simp add: arm_armedBy arm_fst timerFor_delayUntil split: option.splits)
  then have "list_all (\<lambda>a. fst (a s') = (armedBy s' (snd (a s')) \<noteq> []))
      (attempts host (mode cfg) p (clock s))"
    by (simp add: attempts_def doSunrise_arm doSunset_arm)
  then show ?thesis
    using setupSensor_arms [OF assms] by simp
qed

theorem first_yielding_day_wins_witness:
  "linkedPositionSensor (linked (Some ''sunrise'')) =
     Some \<lparr>position = Some \<lparr>latitude = 47, longitude = - 122\<rparr>\<rparr> \<and>
   \<not> falsy (mode (linked (Some ''sunrise''))) \<and>
   setupSensor westHost (linked (Some ''sunrise'')) (init 21000000 None) =
      (None, firstOf (attempts westHost (mode (linked (Some ''sunrise'')))
         \<lparr>latitude = 47, longitude = - 122\<rparr> (clock (init 21000000 None)))
           (subscribe (release (init 21000000 None)))) \<and>
   list_all (\<lambda>a. fst (a (init 21000000 None)) =
       (armedBy (init 21000000 None) (snd (a (init 21000000 None))) \<noteq> []))
      (attempts westHost (mode (linked (Some ''sunrise'')))
         \<lparr>latitude = 47, longitude = - 122\<rparr> (clock (init 21000000 None))) \<and>
   map (\<lambda>e. (due (snd e), handler (snd e)))
     (pending (snd (setupSensor westHost (linked (Some ''sunrise'')) (init 21000000 None)))) =
     [(21600000, Trigger), (21780000, Untrigger)]"
proof -
  have h1: "linkedPositionSensor (linked (Some ''sunrise'')) =
     Some \<lparr>position = Some \<lparr>latitude = 47, longitude = - 122\<rparr>\<rparr>"
    by (simp add: linked_def)
  have h2: "\<not> falsy (mode (linked (Some ''sunrise'')))"
    by (simp add: linked_def falsy_def)
  have h3: "position \<lparr>position = Some \<lparr>latitude = 47, longitude = - 122 :: int\<rparr>\<rparr> =
      Some \<lparr>latitude = 47, longitude = - 122\<rparr>"
    by simp
  have v: "map (\<lambda>e. (due (snd e), handler (snd e)))
     (pending (snd (setupSensor westHost (linked (Some ''sunrise'')) (init 21000000 None)))) =
     [(21600000, Trigger), (21780000, Untrigger)]"
    by code_simp
  show ?thesis
    using first_yielding_day_wins [OF h1 h2 h3, of westHost "init 21000000 None"
        "init 21000000 None"] h1 h2 v
    by simp
qed

subsection \<open>Disarming\<close>

text \<open>
  Claim C4. At any point of any history \<^verbatim>\<open>release\<close> leaves no timer pending and no
  listener registered. \<^verbatim>\<open>setupSensor\<close> begins with \<^verbatim>\<open>release\<close>, so every timer pending
  after it was armed by that very run. A timer that was pending before a \<^verbatim>\<open>release\<close> or
  a \<^verbatim>\<open>setupSensor\<close> can fire at no later point, whatever happens afterwards: its handle
  is never given out again.
\<close>

theorem superseded_timers_never_fire:
  assumes "(h, t) \<in> set (pending (run tr (init t0 b)))"
  shows "pending (release (run tr (init t0 b))) = [] \<and>
    listeners (release (run tr (init t0 b))) = [] \<and>
    list_all (\<lambda>e. nextTimeout (run tr (init t0 b)) \<le> fst e \<and>
        armedAt (snd e) = clock (run tr (init t0 b)))
      (pending (snd (setupSensor host cfg (run tr (init t0 b))))) \<and>
    h < nextTimeout (run tr (init t0 b)) \<and>
    fire host1 cfg1 h (run later (release (run tr (init t0 b)))) = None \<and>
    fire host2 cfg2 h (run later (snd (setupSensor host cfg (run tr (init t0 b))))) = None"
proof -
  let ?s = "run tr (init t0 b)"
  have o: "owned ?s" by (rule history_owned)
  have h: "h \<in> fst ` set (pending ?s)" using assms by force
  have "spent h (run later (release ?s))"
    by (rule run_spent) (rule owned_spent_release [OF o h])
  moreover have "spent h (run later (snd (setupSensor host cfg ?s)))"
    by (rule run_spent) (rule owned_spent_setupSensor [OF o h])
  moreover have "h < nextTimeout ?s"
    using owned_pending [OF o assms] by simp
  ultimately show ?thesis
    by (simp add: spent_fire owned_release_pending [OF o] owned_release_listeners [OF o]
          setupSensor_fresh [OF o])
qed

theorem superseded_timers_never_fire_witness:
  "(0, \<lparr>armedAt = 21000000, delay = 600000, handler = Trigger\<rparr>) \<in>
     set (pending (run [(westHost, linked (Some ''sunrise''), Configure)] (init 21000000 None))) \<and>
   pending (release
     (run [(westHost, linked (Some ''sunrise''), Configure)] (init 21000000 None))) = [] \<and>
   fire westHost (linked (Some ''sunrise'')) 0
     (run [(westHost, linked (Some ''sunrise''), Elapse 700000)]
        (release (run [(westHost, linked (Some ''sunrise''), Configure)]
           (init 21000000 None)))) = None \<and>
   fire westHost (linked (Some ''sunrise'')) 0
     (run [(westHost, linked (Some ''sunrise''), Elapse 700000)]
        (snd (setupSensor westHost (linked (Some ''sunset''))
           (run [(westHost, linked (Some ''sunrise''), Configure)]
              (init 21000000 None))))) = None \<and>
   fire westHost (linked (Some ''sunrise'')) 0
     (run [(westHost, linked (Some ''sunrise''), Elapse 700000)]
        (run [(westHost, linked (Some ''sunrise''), Configure)] (init 21000000 None))) \<noteq> None"
proof -
  have h: "(0, \<lparr>armedAt = 21000000, delay = 600000, handler = Trigger\<rparr>) \<in>
     set (pending (run [(westHost, linked (Some ''sunrise''), Configure)] (init 21000000 None)))"
    by code_simp
  have f: "fire westHost (linked (Some ''sunrise'')) 0
     (run [(westHost, linked (Some ''sunrise''), Elapse 700000)]
        (run [(westHost, linked (Some ''sunrise''), Configure)] (init 21000000 None))) \<noteq> None"
    by (simp add: model_defs example_defs)
  show ?thesis
    using superseded_timers_never_fire [OF h] h f by blast
qed

text \<open>
  Claim C5, as the code has it. A mode that is neither \<^verbatim>\<open>sunrise\<close> nor \<^verbatim>\<open>sunset\<close> is not
  turned away: line 69 compares with \<^verbatim>\<open>sunrise\<close> only and every other non-empty string
  takes the branch of line 72. With the mode \<^verbatim>\<open>dusk\<close> the sensor subscribes to the
  position sensor and arms both timers for day 0's sunset. A linked device that reports
  no position is not turned away either: line 54 subscribes to it and line 65 then
  throws, with the listener left registered.
\<close>

theorem unknown_mode_runs_the_sunset_branch:
  "setupSensor westHost (linked (Some ''dusk'')) (init 21000000 None) =
     (None,
      \<lparr>clock = 21000000,
       pending = [(0, \<lparr>armedAt = 21000000, delay = 43620000, handler = Trigger\<rparr>),
                  (1, \<lparr>armedAt = 21000000, delay = 43800000, handler = Untrigger\<rparr>)],
       nextTimeout = 2, listeners = [0], nextListener = 1, positionListener = Some 0,
       startTimeout = Some 0, endTimeout = Some 1, binaryState = None\<rparr>) \<and>
   setupSensor westHost (unlocated (Some ''sunrise'')) (init 21000000 None) =
     (Some TypeError,
      \<lparr>clock = 21000000, pending = [], nextTimeout = 0, listeners = [0], nextListener = 1,
       positionListener = Some 0, startTimeout = None, endTimeout = None,
       binaryState = None\<rparr>)"
  by code_simp

text \<open>
  Claim C5, amended. When no position sensor is linked, or the mode is absent or the
  empty string, \<^verbatim>\<open>setupSensor\<close> returns after \<^verbatim>\<open>release\<close> without an exception: at any
  point of any history no timer is pending afterwards, no listener is registered and
  \<^verbatim>\<open>binaryState\<close> is as before. The sensor stays so whatever happens, as long as no
  \<^verbatim>\<open>setupSensor\<close> is called from outside with a linked sensor and a non-empty mode.
  When a sensor is linked and the mode is not empty but the linked device reports no
  position, \<^verbatim>\<open>setupSensor\<close> throws a TypeError after \<^verbatim>\<open>release\<close> and after subscribing: no
  timer is pending and \<^verbatim>\<open>binaryState\<close> is as before, but the new listener is registered.
  A non-empty mode other than \<^verbatim>\<open>sunrise\<close> is not rejected: with it \<^verbatim>\<open>setupSensor\<close> does
  exactly what it does with the mode \<^verbatim>\<open>sunset\<close>.
\<close>

theorem incomplete_settings_disarm:
  assumes "incomplete cfg"
    and "list_all (\<lambda>x. snd (snd x) \<noteq> Configure \<or> incomplete (fst (snd x))) later"
  shows "setupSensor host cfg (run tr (init t0 b)) = (None, release (run tr (init t0 b))) \<and>
    pending (release (run tr (init t0 b))) = [] \<and>
    listeners (release (run tr (init t0 b))) = [] \<and>
    binaryState (release (run tr (init t0 b))) = binaryState (run tr (init t0 b)) \<and>
    pending (run later (release (run tr (init t0 b)))) = [] \<and>
    listeners (run later (release (run tr (init t0 b)))) = [] \<and>
    binaryState (run later (release (run tr (init t0 b)))) = binaryState (run tr (init t0 b)) \<and>
    (linkedPositionSensor cfgP = Some d \<longrightarrow> \<not> falsy (mode cfgP) \<longrightarrow> position d = None \<longrightarrow>
       setupSensor host cfgP (run tr (init t0 b)) =
         (Some TypeError, subscribe (release (run tr (init t0 b)))) \<and>
       pending (subscribe (release (run tr (init t0 b)))) = [] \<and>
       listeners (subscribe (release (run tr (init t0 b)))) =
         [nextListener (run tr (init t0 b))] \<and>
       binaryState (subscribe (release (run tr (init t0 b)))) =
         binaryState (run tr (init t0 b))) \<and>
    (mode cfgM = Some m \<longrightarrow> m \<noteq> [] \<longrightarrow> m \<noteq> ''sunrise'' \<longrightarrow>
       setupSensor host cfgM s = setupSensor host (cfgM\<lparr>mode := Some ''sunset''\<rparr>) s)"
proof -
  let ?s = "run tr (init t0 b)"
  have o: "owned ?s" by (rule history_owned)
  have p: "pending (release ?s) = []" and l: "listeners (release ?s) = []"
    by (simp_all add: owned_release_pending [OF o] owned_release_listeners [OF o])
  have 1: "setupSensor host cfg ?s = (None, release ?s) \<and>
    pending (release ?s) = [] \<and> listeners (release ?s) = [] \<and>
    binaryState (release ?s) = binaryState ?s \<and>
    pending (run later (release ?s)) = [] \<and> listeners (run later (release ?s)) = [] \<and>
    binaryState (run later (release ?s)) = binaryState ?s"
    using quiet_run [OF p l assms(2)] p l assms(1)
    by (simp add: setupSensor_quiet incomplete_def release_frame)
  have 2: "setupSensor host cfgP ?s = (Some TypeError, subscribe (release ?s)) \<and>
       pending (subscribe (release ?s)) = [] \<and>
       listeners (subscribe (release ?s)) = [nextListener ?s] \<and>
       binaryState (subscribe (release ?s)) = binaryState ?s"
    if "linkedPositionSensor cfgP = Some d" "\<not> falsy (mode cfgP)" "position d = None"
    using that p l by (simp add: setupSensor_throws subscribe_frame release_frame)
  have 3: "setupSensor host cfgM s = setupSensor host (cfgM\<lparr>mode := Some ''sunset''\<rparr>) s"
    if "mode cfgM = Some m" "m \<noteq> []" "m \<noteq> ''sunrise''"
    using that
    by (cases "linkedPositionSensor cfgM")
       (simp_all add: setupSensor_def falsy_def Let_def split_def cong: option.case_cong)
  from 1 2 3 show ?thesis by blast
qed

theorem incomplete_settings_disarm_witness:
  "incomplete (linked None) \<and>
   list_all (\<lambda>x. snd (snd x) \<noteq> Configure \<or> incomplete (fst (snd x)))
     [(westHost, linked (Some ''sunrise''), Elapse 700000),
      (westHost, linked (Some ''sunrise''), Fire 0),
      (westHost, linked (Some ''sunrise''), PositionChanged 0),
      (westHost, linked (Some []), Configure)] \<and>
   pending (run [(westHost, linked (Some ''sunrise''), Configure)] (init 21000000 None)) \<noteq> [] \<and>
   setupSensor westHost (linked None)
       (run [(westHost, linked (Some ''sunrise''), Configure)] (init 21000000 None)) =
     (None, release (run [(westHost, linked (Some ''sunrise''), Configure)] (init 21000000 None))) \<and>
   pending (release
     (run [(westHost, linked (Some ''sunrise''), Configure)] (init 21000000 None))) = [] \<and>
   binaryState (run [(westHost, linked (Some ''sunrise''), Elapse 700000),
      (westHost, linked (Some ''sunrise''), Fire 0),
      (westHost, linked (Some ''sunrise''), PositionChanged 0),
      (westHost, linked (Some []), Configure)]
      (release (run [(westHost, linked (Some ''sunrise''), Configure)] (init 21000000 None)))) =
     binaryState (run [(westHost, linked (Some ''sunrise''), Configure)] (init 21000000 None)) \<and>
   linkedPositionSensor (unlocated (Some ''sunrise'')) = Some \<lparr>position = None\<rparr> \<and>
   \<not> falsy (mode (unlocated (Some ''sunrise''))) \<and>
   setupSensor westHost (unlocated (Some ''sunrise''))
       (run [(westHost, linked (Some ''sunrise''), Configure)] (init 21000000 None)) =
     (Some TypeError,
      subscribe (release
        (run [(westHost, linked (Some ''sunrise''), Configure)] (init 21000000 None)))) \<and>
   listeners (subscribe (release
       (run [(westHost, linked (Some ''sunrise''), Configure)] (init 21000000 None)))) =
     [nextListener (run [(westHost, linked (Some ''sunrise''), Configure)] (init 21000000 None))] \<and>
   mode (linked (Some ''dusk'')) = Some ''dusk'' \<and>
   setupSensor westHost (linked (Some ''dusk'')) (init 21000000 None) =
     setupSensor westHost ((linked (Some ''dusk''))\<lparr>mode := Some ''sunset''\<rparr>)
       (init 21000000 None)"
proof -
  let ?tr = "[(westHost, linked (Some ''sunrise''), Configure)]"
  have h1: "incomplete (linked None)"
    by (simp add: incomplete_def linked_def falsy_def)
  have h2: "list_all (\<lambda>x. snd (snd x) \<noteq> Configure \<or> incomplete (fst (snd x)))
     [(westHost, linked (Some ''sunrise''), Elapse 700000),
      (westHost, linked (Some ''sunrise''), Fire 0),
      (westHost, linked (Some ''sunrise''), PositionChanged 0),
      (westHost, linked (Some []), Configure)]"
    by (simp add: incomplete_def linked_def falsy_def)
  have h3: "pending (run ?tr (init 21000000 None)) \<noteq> []"
    by (simp add: model_defs example_defs)
  have p1: "linkedPositionSensor (unlocated (Some ''sunrise'')) =
      Some \<lparr>position = None :: int position option\<rparr>"
    by (simp add: unlocated_def)
  have p2: "\<not> falsy (mode (unlocated (Some ''sunrise'')))"
    by (simp add: unlocated_def falsy_def)
  have p3: "position \<lparr>position = None :: int position option\<rparr> = None"
    by simp
  have m1: "mode (linked (Some ''dusk'')) = Some ''dusk''"
    by (simp add: linked_def)
  have m2: "''dusk'' \<noteq> []" and m3: "''dusk'' \<noteq> ''sunrise''"
    by simp_all
  note t = incomplete_settings_disarm [OF h1 h2, of westHost ?tr 21000000 None
      "unlocated (Some ''sunrise'')" "\<lparr>position = None\<rparr>" "linked (Some ''dusk'')" "''dusk''"
      "init 21000000 None"]
  from t h1 h2 h3 p1 p2 p3 m1 m2 m3 show ?thesis by simp
qed

subsection \<open>The two timer callbacks\<close>

text \<open>
  Claim C6. When an end timer (one armed with the closure of \<^verbatim>\<open>untrigger\<close>) fires, the outcome
  is that of \<^verbatim>\<open>setupSensor\<close> run on the sensor with \<^verbatim>\<open>binaryState\<close> set to false: the state is
  false afterwards, and every timer pending afterwards is new and due after now, the
  following cycle. No other firing re-arms: a firing that leaves a new handle given out
  was the firing of an end timer.
\<close>

theorem end_timer_reschedules:
  assumes "map_of (pending (run tr (init t0 b))) h = Some t"
    and "handler t = Untrigger"
    and "due t \<le> clock (run tr (init t0 b))"
  shows "fire host cfg h (run tr (init t0 b)) =
      Some (setupSensor host cfg
        ((clearTimeout (Some h) (run tr (init t0 b)))\<lparr>binaryState := Some False\<rparr>)) \<and>
    binaryState (snd (setupSensor host cfg
        ((clearTimeout (Some h) (run tr (init t0 b)))\<lparr>binaryState := Some False\<rparr>))) =
      Some False \<and>
    list_all (\<lambda>e. nextTimeout (run tr (init t0 b)) \<le> fst e \<and>
        clock (run tr (init t0 b)) < due (snd e))
      (pending (snd (setupSensor host cfg
        ((clearTimeout (Some h) (run tr (init t0 b)))\<lparr>binaryState := Some False\<rparr>)))) \<and>
    (\<forall>k r. fire host cfg k (run tr (init t0 b)) = Some r \<longrightarrow>
       nextTimeout (run tr (init t0 b)) < nextTimeout (snd r) \<longrightarrow>
       (\<exists>u. map_of (pending (run tr (init t0 b))) k = Some u \<and> handler u = Untrigger))"
proof -
  let ?s = "run tr (init t0 b)"
  let ?s' = "(clearTimeout (Some h) ?s)\<lparr>binaryState := Some False\<rparr>"
  have o: "owned ?s'"
    by (simp add: owned_binaryState clearTimeout_owned history_owned)
  have 1: "fire host cfg h ?s = Some (setupSensor host cfg ?s')"
    using assms by (simp add: fire_def untrigger_def Let_def)
  have 2: "binaryState (snd (setupSensor host cfg ?s')) = Some False"
    by (simp add: setupSensor_binaryState)
  have 3: "list_all (\<lambda>e. nextTimeout ?s \<le> fst e \<and> clock ?s < due (snd e))
      (pending (snd (setupSensor host cfg ?s')))"
    using setupSensor_fresh [OF o, of host cfg] setupSensor_future [OF o, of host cfg]
    by (auto simp: list_all_iff clearTimeout_frame)
  have 4: "\<exists>u. map_of (pending ?s) k = Some u \<and> handler u = Untrigger"
    if "fire host cfg k ?s = Some r" and "nextTimeout ?s < nextTimeout (snd r)" for k r
  proof -
    from fire_Some [OF that(1)] obtain u where u: "map_of (pending ?s) k = Some u"
      and c: "case handler u of
        Trigger \<Rightarrow> r = (None, trigger (clearTimeout (Some k) ?s))
      | Untrigger \<Rightarrow> r = untrigger host cfg (clearTimeout (Some k) ?s)"
      by blast
    show ?thesis
    proof (cases "handler u")
      case Trigger
      with c have "nextTimeout (snd r) = nextTimeout ?s"
        by (simp add: trigger_def clearTimeout_frame)
      with that(2) show ?thesis by simp
    next
      case Untrigger
      with u show ?thesis by simp
    qed
  qed
  from 1 2 3 4 show ?thesis by blast
qed

theorem end_timer_reschedules_witness:
  "map_of (pending (run [(westHost, linked (Some ''sunrise''), Configure),
        (westHost, linked (Some ''sunrise''), Elapse 780000)] (init 21000000 None))) 1 =
     Some \<lparr>armedAt = 21000000, delay = 780000, handler = Untrigger\<rparr> \<and>
   handler \<lparr>armedAt = 21000000, delay = 780000, handler = Untrigger\<rparr> = Untrigger \<and>
   due \<lparr>armedAt = 21000000, delay = 780000, handler = Untrigger\<rparr> \<le>
     clock (run [(westHost, linked (Some ''sunrise''), Configure),
        (westHost, linked (Some ''sunrise''), Elapse 780000)] (init 21000000 None)) \<and>
   fire westHost (linked (Some ''sunrise'')) 1
       (run [(westHost, linked (Some ''sunrise''), Configure),
          (westHost, linked (Some ''sunrise''), Elapse 780000)] (init 21000000 None)) =
     Some (None,
       \<lparr>clock = 21780000,
        pending = [(2, \<lparr>armedAt = 21780000, delay = 86220000, handler = Trigger\<rparr>),
                   (3, \<lparr>armedAt = 21780000, delay = 86400000, handler = Untrigger\<rparr>)],
        nextTimeout = 4, listeners = [1], nextListener = 2, positionListener = Some 1,
        startTimeout = Some 2, endTimeout = Some 3, binaryState = Some False\<rparr>)"
proof -
  let ?s = "run [(westHost, linked (Some ''sunrise''), Configure),
        (westHost, linked (Some ''sunrise''), Elapse 780000)] (init 21000000 None)"
  have s: "?s = \<lparr>clock = 21780000,
        pending = [(0, \<lparr>armedAt = 21000000, delay = 600000, handler = Trigger\<rparr>),
                   (1, \<lparr>armedAt = 21000000, delay = 780000, handler = Untrigger\<rparr>)],
        nextTimeout = 2, listeners = [0], nextListener = 1, positionListener = Some 0,
        startTimeout = Some 0, endTimeout = Some 1, binaryState = None\<rparr>"
    by (simp add: model_defs example_defs)
  have h1: "map_of (pending ?s) 1 =
      Some \<lparr>armedAt = 21000000, delay = 780000, handler = Untrigger\<rparr>"
    unfolding s by simp
  have h2: "handler \<lparr>armedAt = 21000000, delay = 780000, handler = Untrigger\<rparr> = Untrigger"
    by simp
  have h3: "due \<lparr>armedAt = 21000000, delay = 780000, handler = Untrigger\<rparr> \<le> clock ?s"
    unfolding s by (simp add: due_def)
  have v: "setupSensor westHost (linked (Some ''sunrise''))
      ((clearTimeout (Some 1) ?s)\<lparr>binaryState := Some False\<rparr>) =
     (None,
       \<lparr>clock = 21780000,
        pending = [(2, \<lparr>armedAt = 21780000, delay = 86220000, handler = Trigger\<rparr>),
                   (3, \<lparr>armedAt = 21780000, delay = 86400000, handler = Untrigger\<rparr>)],
        nextTimeout = 4, listeners = [1], nextListener = 2, positionListener = Some 1,
        startTimeout = Some 2, endTimeout = Some 3, binaryState = Some False\<rparr>)"
    unfolding s by (simp add: model_defs example_defs)
  from end_timer_reschedules [OF h1 h2 h3, of westHost "linked (Some ''sunrise'')"]
  have "fire westHost (linked (Some ''sunrise'')) 1 ?s =
      Some (setupSensor westHost (linked (Some ''sunrise''))
        ((clearTimeout (Some 1) ?s)\<lparr>binaryState := Some False\<rparr>))"
    by (rule conjunct1)
  with h1 h2 h3 v show ?thesis by (simp only: simp_thms)
qed

text \<open>
  Claim C7. When a start timer (one armed with the closure of \<^verbatim>\<open>trigger\<close>) fires, nothing is
  thrown and the sensor differs from the one before in two places only: the timer that
  fired is no longer pending and \<^verbatim>\<open>binaryState\<close> is true. No timer is armed or cleared,
  the listeners and the three fields are untouched, and every other pending timer, the
  end timer among them, is found under its handle as before.
\<close>

theorem start_timer_only_sets_state:
  assumes "map_of (pending s) h = Some t"
    and "handler t = Trigger"
    and "due t \<le> clock s"
  shows "fire host cfg h s =
      Some (None, s\<lparr>pending := filter (\<lambda>e. fst e \<noteq> h) (pending s),
                     binaryState := Some True\<rparr>) \<and>
    (\<forall>k. k \<noteq> h \<longrightarrow>
       map_of (filter (\<lambda>e. fst e \<noteq> h) (pending s)) k = map_of (pending s) k)"
proof -
  show ?thesis
    using assms by (simp add: fire_def trigger_def clearTimeout_def Let_def map_of_filter_other)
qed

theorem start_timer_only_sets_state_witness:
  "map_of (pending (run [(westHost, linked (Some ''sunrise''), Configure),
        (westHost, linked (Some ''sunrise''), Elapse 600000)] (init 21000000 None))) 0 =
     Some \<lparr>armedAt = 21000000, delay = 600000, handler = Trigger\<rparr> \<and>
   handler \<lparr>armedAt = 21000000, delay = 600000, handler = Trigger\<rparr> = Trigger \<and>
   due \<lparr>armedAt = 21000000, delay = 600000, handler = Trigger\<rparr> \<le>
     clock (run [(westHost, linked (Some ''sunrise''), Configure),
        (westHost, linked (Some ''sunrise''), Elapse 600000)] (init 21000000 None)) \<and>
   fire westHost (linked (Some ''sunrise'')) 0
       (run [(westHost, linked (Some ''sunrise''), Configure),
          (westHost, linked (Some ''sunrise''), Elapse 600000)] (init 21000000 None)) =
     Some (None,
       \<lparr>clock = 21600000,
        pending = [(1, \<lparr>armedAt = 21000000, delay = 780000, handler = Untrigger\<rparr>)],
        nextTimeout = 2, listeners = [0], nextListener = 1, positionListener = Some 0,
        startTimeout = Some 0, endTimeout = Some 1, binaryState = Some True\<rparr>)"
proof -
  let ?s = "run [(westHost, linked (Some ''sunrise''), Configure),
        (westHost, linked (Some ''sunrise''), Elapse 600000)] (init 21000000 None)"
  have s: "?s = \<lparr>clock = 21600000,
        pending = [(0, \<lparr>armedAt = 21000000, delay = 600000, handler = Trigger\<rparr>),
                   (1, \<lparr>armedAt = 21000000, delay = 780000, handler = Untrigger\<rparr>)],
        nextTimeout = 2, listeners = [0], nextListener = 1, positionListener = Some 0,
        startTimeout = Some 0, endTimeout = Some 1, binaryState = None\<rparr>"
    by (simp add: model_defs example_defs)
  have h1: "map_of (pending ?s) 0 =
      Some \<lparr>armedAt = 21000000, delay = 600000, handler = Trigger\<rparr>"
    unfolding s by simp
  have h2: "handler \<lparr>armedAt = 21000000, delay = 600000, handler = Trigger\<rparr> = Trigger"
    by simp
  have h3: "due \<lparr>armedAt = 21000000, delay = 600000, handler = Trigger\<rparr> \<le> clock ?s"
    unfolding s by (simp add: due_def)
  have v: "?s\<lparr>pending := filter (\<lambda>e. fst e \<noteq> 0) (pending ?s), binaryState := Some True\<rparr> =
      \<lparr>clock = 21600000,
        pending = [(1, \<lparr>armedAt = 21000000, delay = 780000, handler = Untrigger\<rparr>)],
        nextTimeout = 2, listeners = [0], nextListener = 1, positionListener = Some 0,
        startTimeout = Some 0, endTimeout = Some 1, binaryState = Some True\<rparr>"
    unfolding s by simp
  from start_timer_only_sets_state [OF h1 h2 h3, of westHost "linked (Some ''sunrise'')"]
  have "fire westHost (linked (Some ''sunrise'')) 0 ?s =
      Some (None, ?s\<lparr>pending := filter (\<lambda>e. fst e \<noteq> 0) (pending ?s),
                       binaryState := Some True\<rparr>)"
    by (rule conjunct1)
  with h1 h2 h3 v show ?thesis by (simp only: simp_thms)
qed

subsection \<open>Running \<^verbatim>\<open>setupSensor\<close> again\<close>

text \<open>
  Claim C8. With the same host and settings and the clock unchanged, a second run of
  \<^verbatim>\<open>setupSensor\<close> right after a first one, at any point of any history, leaves pending
  timers with the same arming instants, delays and closures as the first run left, in
  the same order, and ends the same way. The timers themselves are new ones: those of the
  first run were cleared.
\<close>

theorem setupSensor_twice_arms_the_same:
  "map snd (pending (snd (setupSensor host cfg
       (snd (setupSensor host cfg (run tr (init t0 b))))))) =
     map snd (pending (snd (setupSensor host cfg (run tr (init t0 b))))) \<and>
   fst (setupSensor host cfg (snd (setupSensor host cfg (run tr (init t0 b))))) =
     fst (setupSensor host cfg (run tr (init t0 b))) \<and>
   list_all (\<lambda>e. nextTimeout (snd (setupSensor host cfg (run tr (init t0 b)))) \<le> fst e)
     (pending (snd (setupSensor host cfg
       (snd (setupSensor host cfg (run tr (init t0 b)))))))"
proof -
  let ?s = "run tr (init t0 b)"
  let ?s1 = "snd (setupSensor host cfg ?s)"
  have o: "owned ?s" by (rule history_owned)
  have o1: "owned ?s1" by (rule setupSensor_owned [OF o])
  have c: "clock ?s1 = clock ?s" by (rule setupSensor_clock)
  from setupSensor_plan [OF o1 o c, of host cfg] setupSensor_fresh [OF o1, of host cfg]
  show ?thesis by (simp add: list_all_iff)
qed


subsection \<open>Order of the two timers\<close>

text \<open>
  Claim C10. When the solar calculator keeps a day's start instant at or before its end
  instant, then among the timers one arming call arms, the start timer is due no later
  than the end timer and its delay is no longer. This holds for \<^verbatim>\<open>doSunrise\<close> on the
  pair sunrise and sunriseEnd and for \<^verbatim>\<open>doSunset\<close> on the pair sunsetStart and sunset.
\<close>

theorem start_timer_not_after_end_timer:
  "(ordered (sunrise ts) (sunriseEnd ts) \<longrightarrow>
      startBeforeEnd (armedBy s (snd (doSunrise ts s)))) \<and>
   (ordered (sunsetStart ts) (sunset ts) \<longrightarrow>
      startBeforeEnd (armedBy s (snd (doSunset ts s))))"
  by (simp add: doSunrise_arm doSunset_arm arm_startBeforeEnd)

theorem start_timer_not_after_end_timer_witness:
  "ordered (sunrise (tomorrowTimes westHost \<lparr>latitude = 47, longitude = - 122\<rparr> 21000000))
     (sunriseEnd (tomorrowTimes westHost \<lparr>latitude = 47, longitude = - 122\<rparr> 21000000)) \<and>
   armedBy (init 21000000 None)
     (snd (doSunrise (tomorrowTimes westHost \<lparr>latitude = 47, longitude = - 122\<rparr> 21000000)
        (init 21000000 None))) =
     [\<lparr>armedAt = 21000000, delay = 600000, handler = Trigger\<rparr>,
      \<lparr>armedAt = 21000000, delay = 780000, handler = Untrigger\<rparr>] \<and>
   startBeforeEnd (armedBy (init 21000000 None)
     (snd (doSunrise (tomorrowTimes westHost \<lparr>latitude = 47, longitude = - 122\<rparr> 21000000)
        (init 21000000 None)))) \<and>
   ordered (sunsetStart (tomorrowTimes westHost \<lparr>latitude = 47, longitude = - 122\<rparr> 21000000))
     (sunset (tomorrowTimes westHost \<lparr>latitude = 47, longitude = - 122\<rparr> 21000000)) \<and>
   armedBy (init 21000000 None)
     (snd (doSunset (tomorrowTimes westHost \<lparr>latitude = 47, longitude = - 122\<rparr> 21000000)
        (init 21000000 None))) =
     [\<lparr>armedAt = 21000000, delay = 43620000, handler = Trigger\<rparr>,
      \<lparr>armedAt = 21000000, delay = 43800000, handler = Untrigger\<rparr>] \<and>
   startBeforeEnd (armedBy (init 21000000 None)
     (snd (doSunset (tomorrowTimes westHost \<lparr>latitude = 47, longitude = - 122\<rparr> 21000000)
        (init 21000000 None))))"
proof -
  let ?ts = "tomorrowTimes westHost \<lparr>latitude = 47, longitude = - 122\<rparr> 21000000"
  have h1: "ordered (sunrise ?ts) (sunriseEnd ?ts)"
    by (simp add: ordered_def tomorrowTimes_def westHost_def)
  have h2: "ordered (sunsetStart ?ts) (sunset ?ts)"
    by (simp add: ordered_def tomorrowTimes_def westHost_def)
  have v1: "armedBy (init 21000000 None) (snd (doSunrise ?ts (init 21000000 None))) =
     [\<lparr>armedAt = 21000000, delay = 600000, handler = Trigger\<rparr>,
      \<lparr>armedAt = 21000000, delay = 780000, handler = Untrigger\<rparr>]"
    by code_simp
  have v2: "armedBy (init 21000000 None) (snd (doSunset ?ts (init 21000000 None))) =
     [\<lparr>armedAt = 21000000, delay = 43620000, handler = Trigger\<rparr>,
      \<lparr>armedAt = 21000000, delay = 43800000, handler = Untrigger\<rparr>]"
    by code_simp
  from start_timer_not_after_end_timer [of ?ts "init 21000000 None"] h1 h2
  have "startBeforeEnd (armedBy (init 21000000 None) (snd (doSunrise ?ts (init 21000000 None)))) \<and>
    startBeforeEnd (armedBy (init 21000000 None) (snd (doSunset ?ts (init 21000000 None))))"
    by blast
  with h1 h2 show ?thesis unfolding v1 v2 by (simp only: simp_thms)
qed

end
